theory Spec2Isabelle
  imports Main "HOL-Library.Sublist"
begin

section \<open>LEDAPS driver script \<^verbatim>\<open>do_ledaps.py\<close>: the embedding\<close>

text \<open>
  The script is Python 2. Its integers are unbounded (\<open>int\<close>), its strings are byte
  strings (\<open>string\<close>). Everything the script asks of its surroundings is a field of the
  record \<open>world\<close>: the environment variables, the clock, the file system queries, the parsed
  command line and the external programs. The two pieces of state the script changes are
  fields as well: the working directory of the process and the history of the external
  commands it has run. Calls of the logger write messages only and take no part in the
  control flow; they are left out.
\<close>

subsection \<open>The surroundings of the process\<close>

record invocation =
  inv_dir :: string      \<comment> \<open>working directory the command was started in\<close>
  inv_cmd :: string      \<comment> \<open>the command string handed to the shell\<close>
  inv_status :: int      \<comment> \<open>the status word that came back\<close>

record world =
  environ :: "string \<rightharpoonup> string"                \<comment> \<open>\<^verbatim>\<open>os.environ\<close>\<close>
  now_year :: int                               \<comment> \<open>\<^verbatim>\<open>datetime.datetime.now().year\<close>\<close>
  now_yday :: nat                               \<comment> \<open>\<^verbatim>\<open>now.timetuple().tm_yday\<close>, an ordinal\<close>
  isfile :: "string \<Rightarrow> bool"                    \<comment> \<open>\<^verbatim>\<open>os.path.isfile\<close>\<close>
  access_W_OK :: "string \<Rightarrow> bool"               \<comment> \<open>\<^verbatim>\<open>os.access(p, os.W_OK)\<close>\<close>
  abspath :: "string \<Rightarrow> string \<Rightarrow> string"        \<comment> \<open>\<^verbatim>\<open>os.path.abspath\<close>, from the working directory and the path\<close>
  options_xmlfile :: "string option"            \<comment> \<open>\<^verbatim>\<open>options.xmlfile\<close> of the parsed command line\<close>
  options_process_sr :: "string option"         \<comment> \<open>\<^verbatim>\<open>options.process_sr\<close> of the parsed command line\<close>
  getstatusoutput :: "string \<Rightarrow> string \<Rightarrow> int \<times> string"
      \<comment> \<open>what a command string yields when the shell runs it in a directory: status word and output\<close>
  cwd :: string                                 \<comment> \<open>\<^verbatim>\<open>os.getcwd()\<close>\<close>
  invoked :: "invocation list"                  \<comment> \<open>external commands run so far, oldest first\<close>

definition ERROR :: int where
  "ERROR = 1"

definition SUCCESS :: int where
  "SUCCESS = 0"

subsection \<open>Python's string formatting of integers\<close>

text \<open>\<^verbatim>\<open>str(n)\<close> and \<^verbatim>\<open>"%d" % n\<close>: the decimal digits, with a minus sign below zero.\<close>

fun str_nat :: "nat \<Rightarrow> string" where
  "str_nat n =
     (if n < 10 then [''0123456789'' ! n]
      else str_nat (n div 10) @ [''0123456789'' ! (n mod 10)])"

declare str_nat.simps [simp del]

definition str :: "int \<Rightarrow> string" where
  "str i = (if i < 0 then CHR ''-'' # str_nat (nat (- i)) else str_nat (nat i))"

subsection \<open>\<^verbatim>\<open>isLeapYear\<close> (lines 27 to 37)\<close>

definition isLeapYear :: "int \<Rightarrow> bool" where
  "isLeapYear year =
     (if year mod 4 = 0 then
        (if year mod 100 = 0 then
           (if year mod 400 = 0 then True else False)
         else True)
      else False)"

subsection \<open>\<^verbatim>\<open>Ledaps.findAncillary\<close> (lines 100 to 155)\<close>

text \<open>Lines 134 to 140: the day of year as the script pads it.\<close>

definition dayofyear :: "int \<Rightarrow> string" where
  "dayofyear currdoy =
     (if currdoy < 10 then ''00'' @ str currdoy
      else if 9 < currdoy \<and> currdoy < 100 then ''0'' @ str currdoy
      else str currdoy)"

text \<open>Lines 143 to 148: the two file names, from the two format strings.\<close>

definition ncepFile :: "string \<Rightarrow> int \<Rightarrow> string \<Rightarrow> string" where
  "ncepFile ancdir year doystr =
     ancdir @ ''/REANALYSIS/RE_'' @ str year @ ''/REANALYSIS_'' @ str year @ doystr @ ''.hdf''"

definition tomsFile :: "string \<Rightarrow> int \<Rightarrow> string \<Rightarrow> string" where
  "tomsFile ancdir year doystr =
     ancdir @ ''/EP_TOMS/ozone_'' @ str year @ ''/TOMS_'' @ str year @ doystr @ ''.hdf''"

text \<open>
  Lines 128 to 152: the loop over \<^verbatim>\<open>range(1, ndays+1)\<close>. The list of the values still to
  come is the first list argument, \<open>doyList\<close> is the list built so far; each pass appends one
  entry. When a day was given, the loop variable is overwritten with it (line 132).
\<close>

fun doy_loop :: "world \<Rightarrow> string \<Rightarrow> int \<Rightarrow> int \<Rightarrow> int list \<Rightarrow> bool list \<Rightarrow> bool list" where
  "doy_loop w ancdir year doy [] doyList = doyList"
| "doy_loop w ancdir year doy (r # rs) doyList =
     (let currdoy = (if doy \<noteq> - 99 then doy else r);
          present = (isfile w (ncepFile ancdir year (dayofyear currdoy)) \<and>
                     isfile w (tomsFile ancdir year (dayofyear currdoy)))
      in doy_loop w ancdir year doy rs (doyList @ [if present then True else False]))"

text \<open>
  Lines 116 to 124: the number of days to look at. It stays 1 when a day was given.
\<close>

definition ndays_of :: "world \<Rightarrow> int \<Rightarrow> int \<Rightarrow> int" where
  "ndays_of w year doy =
     (if doy = - 99 then
        (if year = now_year w then int (now_yday w)
         else if isLeapYear year = True then 366 else 365)
      else 1)"

text \<open>
  The function itself. The parameter \<^verbatim>\<open>doy=-99\<close> has a default: a call that leaves the day
  out is \<open>None\<close> here, and the first thing that happens is that the default is filled in.
  The result \<open>None\<close> is Python's \<^verbatim>\<open>None\<close> of line 106.
\<close>

definition findAncillary :: "world \<Rightarrow> int \<Rightarrow> int option \<Rightarrow> bool list option" where
  "findAncillary w year doy_arg =
     (let doy = (case doy_arg of None \<Rightarrow> - 99 | Some d \<Rightarrow> d)
      in case environ w ''ANC_PATH'' of
           None \<Rightarrow> None
         | Some ancdir \<Rightarrow>
             Some (doy_loop w ancdir year doy [1 .. ndays_of w year doy] []))"

subsection \<open>Library functions that \<^verbatim>\<open>runLedaps\<close> calls\<close>

text \<open>
  \<^verbatim>\<open>os.path.basename\<close> and \<^verbatim>\<open>os.path.dirname\<close> of \<^verbatim>\<open>posixpath\<close>: both cut the path after
  its last slash; \<^verbatim>\<open>dirname\<close> then strips trailing slashes from the head unless the head
  consists of slashes only.
\<close>

definition basename :: "string \<Rightarrow> string" where
  "basename p = rev (takeWhile (\<lambda>c. c \<noteq> CHR ''/'') (rev p))"

definition dirname :: "string \<Rightarrow> string" where
  "dirname p =
     (let head = rev (dropWhile (\<lambda>c. c \<noteq> CHR ''/'') (rev p))
      in if head \<noteq> [] \<and> head \<noteq> replicate (length head) CHR ''/''
         then rev (dropWhile (\<lambda>c. c = CHR ''/'') (rev head))
         else head)"

text \<open>
  \<^verbatim>\<open>re.sub('\.xml$', '', s)\<close>. The pattern matches the four characters \<^verbatim>\<open>.xml\<close> at the end
  of the string, or just before a newline that ends the string; at most one of the two can
  happen, and the match is deleted.
\<close>

definition endswith :: "string \<Rightarrow> string \<Rightarrow> bool" where
  "endswith s t = (length t \<le> length s \<and> drop (length s - length t) s = t)"

definition re_sub_xml :: "string \<Rightarrow> string" where
  "re_sub_xml s =
     (if endswith s ''.xml'' then take (length s - 4) s
      else if endswith s (''.xml'' @ [CHR 0x0A]) then take (length s - 5) s @ [CHR 0x0A]
      else s)"

text \<open>
  \<^verbatim>\<open>os.chdir\<close>, and \<^verbatim>\<open>commands.getstatusoutput\<close>: the shell runs the command string in the
  current working directory; the call is entered into the history. Both are taken to
  come back: a program that the shell cannot find shows as a status word (exit code 127),
  and an \<^verbatim>\<open>OSError\<close> raised by the operating system itself is outside this embedding.
\<close>

definition chdir :: "string \<Rightarrow> world \<Rightarrow> world" where
  "chdir d w = w\<lparr>cwd := d\<rparr>"

definition commands_getstatusoutput :: "string \<Rightarrow> world \<Rightarrow> world \<times> int \<times> string" where
  "commands_getstatusoutput cmdstr w =
     (let (status, output) = getstatusoutput w (cwd w) cmdstr
      in (w\<lparr>invoked := invoked w @ [\<lparr>inv_dir = cwd w, inv_cmd = cmdstr, inv_status = status\<rparr>]\<rparr>,
          status, output))"

subsection \<open>\<^verbatim>\<open>Ledaps.runLedaps\<close> (lines 181 to 339)\<close>

text \<open>
  A call either returns an integer or, on the one path through \<^verbatim>\<open>parser.error\<close>, leaves the
  interpreter: \<^verbatim>\<open>optparse\<close>'s \<^verbatim>\<open>error\<close> prints the usage and calls \<^verbatim>\<open>sys.exit(2)\<close>, so the
  \<^verbatim>\<open>return ERROR\<close> of line 206 is never reached.
\<close>

datatype outcome = Return int | SystemExit int

text \<open>
  Lines 184 to 209. With an \<^verbatim>\<open>xmlfile\<close> argument both parameters are used as they come.
  Without one, both are replaced by the options of the command line, and a missing
  \<^verbatim>\<open>--process_sr\<close> option means \<^verbatim>\<open>"True"\<close>.
\<close>

definition parameters :: "world \<Rightarrow> string option \<Rightarrow> string \<Rightarrow> outcome + string \<times> string" where
  "parameters w xmlfile process_sr =
     (case xmlfile of
        None \<Rightarrow>
          (case options_xmlfile w of
             None \<Rightarrow> Inl (SystemExit 2)
           | Some xmlfile \<Rightarrow>
               (case options_process_sr w of
                  None \<Rightarrow> Inr (xmlfile, ''True'')
                | Some process_sr \<Rightarrow> Inr (xmlfile, process_sr)))
      | Some xmlfile \<Rightarrow> Inr (xmlfile, process_sr))"

text \<open>
  Lines 246 to 261: the naming convention. \<open>Some False\<close> and \<open>Some True\<close> are the two values
  that the variable \<^verbatim>\<open>processing_collection\<close> is given; \<open>None\<close> is the \<^verbatim>\<open>else\<close> branch, in
  which the variable is never set and the function returns.
\<close>

definition prefixes_old :: "string list" where
  "prefixes_old = [''LT4'', ''LT5'', ''LE7'']"

definition prefixes_collection :: "string list" where
  "prefixes_collection = [''LT04'', ''LT05'', ''LE07'']"

definition processing_collection :: "string \<Rightarrow> bool option" where
  "processing_collection base_xmlfile =
     (if take 3 base_xmlfile \<in> set prefixes_old then Some False
      else if take 4 base_xmlfile \<in> set prefixes_collection then Some True
      else None)"

text \<open>
  A block of statements after the classification either returns from \<^verbatim>\<open>runLedaps\<close>
  (\<open>Some\<close> of the value returned) or falls through to the statement after it (\<open>None\<close>).
  \<open>and_then\<close> puts one block after another; \<open>followed_by\<close> puts a block in front of the
  rest of the function body, which always returns.
\<close>

type_synonym block = "world \<Rightarrow> world \<times> int option"

definition skip :: block where
  "skip w = (w, None)"

definition and_then :: "block \<Rightarrow> block \<Rightarrow> block" where
  "and_then b c w = (case b w of (w', None) \<Rightarrow> c w' | (w', Some r) \<Rightarrow> (w', Some r))"

definition followed_by :: "block \<Rightarrow> (world \<Rightarrow> world \<times> int) \<Rightarrow> world \<Rightarrow> world \<times> int" where
  "followed_by b rest w = (case b w of (w', None) \<Rightarrow> rest w' | (w', Some r) \<Rightarrow> (w', r))"

text \<open>
  The same statements follow the construction of every command string (lines 272 to
  279, 292 to 298, 303 to 309, 315 to 322 and 327 to 334): run the command, shift the
  status word right by eight bits, and when what is left is not zero, go back to the
  directory of the caller and return \<^verbatim>\<open>ERROR\<close>.
\<close>

definition run_checked :: "string \<Rightarrow> string \<Rightarrow> block" where
  "run_checked mydir cmdstr w =
     (let (w', status, output) = commands_getstatusoutput cmdstr w;
          exit_code = drop_bit 8 status
      in if exit_code \<noteq> 0 then (chdir mydir w', Some ERROR) else (w', None))"

text \<open>Lines 263 to 339, in the order of the source.\<close>

definition run_stages ::
  "string \<Rightarrow> string \<Rightarrow> string \<Rightarrow> string \<Rightarrow> bool \<Rightarrow> world \<Rightarrow> world \<times> int" where
  "run_stages mydir base_xmlfile xml process_sr pc =
     (let process_collection_opt_str = (if pc then ''--process_collection'' else '''');
          process_sr_opt_str =
            (if process_sr = ''True'' then ''--process_sr=true'' else ''--process_sr=false'')
      in
        followed_by
          (if pc
           then run_checked mydir (''create_landsat_angle_bands --xml '' @ base_xmlfile)
           else skip)
       (followed_by
          (run_checked mydir (''lndpm --xml '' @ base_xmlfile @ '' '' @ process_sr_opt_str))
       (followed_by
          (run_checked mydir
             (''lndcal --pfile lndcal.'' @ xml @ ''.txt '' @ process_collection_opt_str))
       (followed_by
          (if process_sr = ''True''
           then and_then
                  (run_checked mydir
                     (''lndsr --pfile lndsr.'' @ xml @ ''.txt '' @ process_collection_opt_str))
                  (if \<not> pc
                   then run_checked mydir (''lndsrbm.py -f lndsr.'' @ xml @ ''.txt'')
                   else skip)
           else skip)
          (\<lambda>w. (chdir mydir w, SUCCESS))))))"

definition runLedaps :: "world \<Rightarrow> string option \<Rightarrow> string \<Rightarrow> world \<times> outcome" where
  "runLedaps w xmlfile_arg process_sr_arg =
     (case parameters w xmlfile_arg process_sr_arg of
        Inl out \<Rightarrow> (w, out)
      | Inr (xmlfile, process_sr) \<Rightarrow>
          if \<not> isfile w xmlfile then (w, Return ERROR)
          else
            let base_xmlfile = basename xmlfile;
                xml = re_sub_xml base_xmlfile;
                mydir = cwd w;
                xmldir = dirname (abspath w (cwd w) xmlfile)
            in if \<not> access_W_OK w xmldir then (w, Return ERROR)
               else
                 let w1 = chdir xmldir w
                 in (case processing_collection base_xmlfile of
                       None \<Rightarrow> (chdir mydir w1, Return ERROR)
                     | Some pc \<Rightarrow>
                         (case run_stages mydir base_xmlfile xml process_sr pc w1 of
                            (w2, r) \<Rightarrow> (w2, Return r))))"

section \<open>Notions used to state the properties\<close>

text \<open>
  The day of year written with at least three digits, zeros in front: the decimal digits of
  the number, with as many zeros before them as are missing to three characters.
\<close>

definition zero_pad3 :: "int \<Rightarrow> string" where
  "zero_pad3 d = replicate (3 - length (str d)) CHR ''0'' @ str d"

text \<open>The part of the history that a call added: what is in \<open>w'\<close> beyond what was in \<open>w\<close>.\<close>

definition new_invocations :: "world \<Rightarrow> world \<Rightarrow> invocation list" where
  "new_invocations w w' = drop (length (invoked w)) (invoked w')"

text \<open>
  The shell cuts an unquoted command line into words at blanks; the first word names the
  program, the others are its arguments. A run of blanks separates once, and blanks at the
  end separate nothing.
\<close>

fun words_from :: "string \<Rightarrow> string \<Rightarrow> string list" where
  "words_from cur [] = (if cur = [] then [] else [cur])"
| "words_from cur (c # cs) =
     (if c = CHR '' '' then (if cur = [] then [] else [cur]) @ words_from [] cs
      else words_from (cur @ [c]) cs)"

definition shell_words :: "string \<Rightarrow> string list" where
  "shell_words cmdstr = words_from [] cmdstr"

definition program :: "string \<Rightarrow> string" where
  "program cmdstr = takeWhile (\<lambda>c. c \<noteq> CHR '' '') cmdstr"

text \<open>
  The command strings of \<open>run_stages\<close> in the order in which the body reaches them, and the
  plain loop that runs such a list until a command fails. Lemma \<open>run_stages_run_list\<close> below
  shows that the body of the source is this loop on this list.
\<close>

definition stage_commands :: "string \<Rightarrow> string \<Rightarrow> string \<Rightarrow> bool \<Rightarrow> string list" where
  "stage_commands base_xmlfile xml process_sr pc =
     (if pc then [''create_landsat_angle_bands --xml '' @ base_xmlfile] else []) @
     [''lndpm --xml '' @ base_xmlfile @ '' '' @
        (if process_sr = ''True'' then ''--process_sr=true'' else ''--process_sr=false''),
      ''lndcal --pfile lndcal.'' @ xml @ ''.txt '' @
        (if pc then ''--process_collection'' else '''')] @
     (if process_sr = ''True''
      then (''lndsr --pfile lndsr.'' @ xml @ ''.txt '' @
              (if pc then ''--process_collection'' else '''')) #
           (if \<not> pc then [''lndsrbm.py -f lndsr.'' @ xml @ ''.txt''] else [])
      else [])"

fun run_list :: "string \<Rightarrow> string list \<Rightarrow> world \<Rightarrow> world \<times> int" where
  "run_list mydir [] w = (chdir mydir w, SUCCESS)"
| "run_list mydir (c # cs) w = followed_by (run_checked mydir c) (run_list mydir cs) w"

text \<open>
  Of a list of commands, those that such a loop runs: all up to and including the first one
  whose status word, shifted right by eight bits, is not zero.
\<close>

fun attempted :: "(string \<Rightarrow> int) \<Rightarrow> string list \<Rightarrow> string list" where
  "attempted st [] = []"
| "attempted st (c # cs) = (if drop_bit 8 (st c) \<noteq> 0 then [c] else c # attempted st cs)"

definition record_of :: "world \<Rightarrow> string \<Rightarrow> string \<Rightarrow> invocation" where
  "record_of w d c = \<lparr>inv_dir = d, inv_cmd = c, inv_status = fst (getstatusoutput w d c)\<rparr>"

text \<open>The same surroundings, but with external programs that all exit with code 0.\<close>

definition all_succeed :: "world \<Rightarrow> world" where
  "all_succeed w = w\<lparr>getstatusoutput := (\<lambda>d c. (0, ''''))\<rparr>"

section \<open>Example surroundings\<close>

text \<open>
  A machine with three scene files in \<^verbatim>\<open>/data\<close>, on day 251 of 2016, where every
  external program succeeds. Of the ancillary files of 2013 it has both for day 2 and for
  day 45, the ozone file only for day 3, and the reanalysis file only for day 46.
\<close>

definition example_world :: world where
  "example_world =
     \<lparr>environ = [''ANC_PATH'' \<mapsto> ''/anc''],
      now_year = 2016,
      now_yday = 251,
      isfile = (\<lambda>p. p \<in> {''/data/LT5base.xml'', ''/data/LE07_L1TP.xml'', ''/data/XX1_foo.xml'',
                          ''/anc/REANALYSIS/RE_2013/REANALYSIS_2013002.hdf'',
                          ''/anc/EP_TOMS/ozone_2013/TOMS_2013002.hdf'',
                          ''/anc/EP_TOMS/ozone_2013/TOMS_2013003.hdf'',
                          ''/anc/REANALYSIS/RE_2013/REANALYSIS_2013045.hdf'',
                          ''/anc/EP_TOMS/ozone_2013/TOMS_2013045.hdf'',
                          ''/anc/REANALYSIS/RE_2013/REANALYSIS_2013046.hdf''}),
      access_W_OK = (\<lambda>d. d = ''/data''),
      abspath = (\<lambda>d p. if take 1 p = ''/'' then p else d @ ''/'' @ p),
      options_xmlfile = None,
      options_process_sr = None,
      getstatusoutput = (\<lambda>d c. (0, '''')),
      cwd = ''/home/user'',
      invoked = []\<rparr>"

text \<open>The same machine on the third day of 2013.\<close>

definition early_2013 :: world where
  "early_2013 = example_world\<lparr>now_year := 2013, now_yday := 3\<rparr>"


text \<open>The first machine without the environment variable.\<close>

definition unconfigured :: world where
  "unconfigured = example_world\<lparr>environ := Map.empty\<rparr>"

text \<open>
  The first machine when the script was started as
  \<^verbatim>\<open>do_ledaps.py --xml /data/LT5base.xml\<close>, without the option \<^verbatim>\<open>--process_sr\<close>.
\<close>

definition from_command_line :: world where
  "from_command_line = example_world\<lparr>options_xmlfile := Some ''/data/LT5base.xml''\<rparr>"

text \<open>The same machine, except that \<^verbatim>\<open>lndcal\<close> exits with code 1 (status word 256).\<close>

definition lndcal_fails :: world where
  "lndcal_fails =
     example_world\<lparr>getstatusoutput :=
       (\<lambda>d c. if take 7 c = ''lndcal '' then (256, ''lndcal: error'') else (0, ''''))\<rparr>"

section \<open>Lemmas\<close>

subsection \<open>Decimal digits and padding\<close>

lemma length_str_nat_small: "n < 10 \<Longrightarrow> length (str_nat n) = 1"
  by (simp add: str_nat.simps)

lemma length_str_nat_pos: "1 \<le> length (str_nat n)"
  by (subst str_nat.simps) simp

lemma length_str_nat_step: "10 \<le> n \<Longrightarrow> length (str_nat n) = length (str_nat (n div 10)) + 1"
  by (subst str_nat.simps) simp

lemma length_str_nat_two: "10 \<le> n \<Longrightarrow> n < 100 \<Longrightarrow> length (str_nat n) = 2"
  by (simp add: length_str_nat_step length_str_nat_small)

lemma length_str_nat_large:
  assumes "100 \<le> n"
  shows "3 \<le> length (str_nat n)"
proof -
  have "10 \<le> n div 10" using assms by simp
  hence "length (str_nat (n div 10)) = length (str_nat (n div 10 div 10)) + 1"
    by (rule length_str_nat_step)
  hence "2 \<le> length (str_nat (n div 10))"
    using length_str_nat_pos [of "n div 10 div 10"] by simp
  thus ?thesis using assms by (simp add: length_str_nat_step)
qed

text \<open>From day 0 on, the padding of lines 135 to 140 is padding with zeros to three digits.\<close>

lemma dayofyear_zero_pad3:
  assumes "0 \<le> d"
  shows "dayofyear d = zero_pad3 d"
proof -
  consider "d < 10" | "10 \<le> d" "d < 100" | "100 \<le> d" by linarith
  thus ?thesis
  proof cases
    case 1
    hence "length (str_nat (nat d)) = 1" using assms by (simp add: length_str_nat_small)
    thus ?thesis using 1 assms by (simp add: dayofyear_def zero_pad3_def str_def numeral_3_eq_3)
  next
    case 2
    hence "length (str_nat (nat d)) = 2" using assms by (simp add: length_str_nat_two)
    thus ?thesis using 2 assms by (simp add: dayofyear_def zero_pad3_def str_def)
  next
    case 3
    hence "3 \<le> length (str_nat (nat d))" using assms by (simp add: length_str_nat_large)
    thus ?thesis using 3 assms by (simp add: dayofyear_def zero_pad3_def str_def)
  qed
qed

subsection \<open>The loop of \<^verbatim>\<open>findAncillary\<close>\<close>

lemma doy_loop_append:
  "doy_loop w ancdir year doy rs doyList =
     doyList @ map (\<lambda>r. isfile w (ncepFile ancdir year (dayofyear (if doy \<noteq> - 99 then doy else r))) \<and>
                        isfile w (tomsFile ancdir year (dayofyear (if doy \<noteq> - 99 then doy else r)))) rs"
  by (induction rs arbitrary: doyList) (simp_all add: Let_def)

lemma findAncillary_configured:
  "environ w ''ANC_PATH'' = Some ancdir \<Longrightarrow>
   findAncillary w year doy_arg =
     Some (map (\<lambda>r. isfile w (ncepFile ancdir year
                       (dayofyear (if doy_arg \<noteq> None \<and> doy_arg \<noteq> Some (- 99) then the doy_arg else r))) \<and>
                    isfile w (tomsFile ancdir year
                       (dayofyear (if doy_arg \<noteq> None \<and> doy_arg \<noteq> Some (- 99) then the doy_arg else r))))
            [1 .. (if doy_arg \<noteq> None \<and> doy_arg \<noteq> Some (- 99) then 1
                   else if year = now_year w then int (now_yday w)
                   else if isLeapYear year then 366 else 365)])"
  by (cases doy_arg) (simp_all add: findAncillary_def doy_loop_append ndays_of_def)

lemma isLeapYear_iff:
  "isLeapYear year \<longleftrightarrow> 4 dvd year \<and> (100 dvd year \<longrightarrow> 400 dvd year)"
  by (simp add: isLeapYear_def dvd_eq_mod_eq_0)

section \<open>The availability check \<^verbatim>\<open>findAncillary\<close>\<close>

text \<open>
  C6. With \<^verbatim>\<open>ANC_PATH\<close> set, \<^verbatim>\<open>findAncillary\<close> returns a list, and its length is: 1 when a day
  of year is given (the test of the code for a given day is that the value differs from the
  default \<^verbatim>\<open>-99\<close>), whatever the year; the ordinal number of today when no day is given and
  the year is the current year; and otherwise 366 when the year is divisible by 4 and, if
  divisible by 100, also by 400, and 365 when it is not.
\<close>

theorem findAncillary_length:
  assumes "environ w ''ANC_PATH'' = Some ancdir"
  shows "\<exists>doyList. findAncillary w year doy = Some doyList \<and>
           length doyList =
             (if doy \<noteq> None \<and> doy \<noteq> Some (- 99) then 1
              else if year = now_year w then now_yday w
              else if 4 dvd year \<and> (100 dvd year \<longrightarrow> 400 dvd year) then 366
              else 365)"
  unfolding findAncillary_configured [OF assms] isLeapYear_iff by auto

theorem findAncillary_length_witness:
  "environ example_world ''ANC_PATH'' = Some ''/anc'' \<and>
   (\<exists>l. findAncillary example_world 2013 (Some 100) = Some l \<and> length l = 1) \<and>
   (\<exists>l. findAncillary example_world 2016 (Some 100) = Some l \<and> length l = 1) \<and>
   (\<exists>l. findAncillary example_world 2016 None = Some l \<and> length l = 251) \<and>
   (\<exists>l. findAncillary example_world 2012 None = Some l \<and> length l = 366) \<and>
   (\<exists>l. findAncillary example_world 2000 None = Some l \<and> length l = 366) \<and>
   (\<exists>l. findAncillary example_world 1900 None = Some l \<and> length l = 365) \<and>
   (\<exists>l. findAncillary example_world 2013 None = Some l \<and> length l = 365)"
proof -
  have h: "environ example_world ''ANC_PATH'' = Some ''/anc''"
    by (simp add: example_world_def)
  have y: "now_year example_world = 2016" "now_yday example_world = 251"
    by (simp_all add: example_world_def)
  show ?thesis
    using h findAncillary_length [OF h, of 2013 "Some 100"]
      findAncillary_length [OF h, of 2016 "Some 100"]
      findAncillary_length [OF h, of 2016 None]
      findAncillary_length [OF h, of 2012 None]
      findAncillary_length [OF h, of 2000 None]
      findAncillary_length [OF h, of 1900 None]
      findAncillary_length [OF h, of 2013 None]
    by (simp add: y)
qed

lemma nth_map_upto:
  assumes "i < length [1 .. n]"
  shows "map f [1 .. n] ! i = f (1 + int i)"
proof -
  have "1 + int i \<le> n" using assms by simp
  hence "[1 .. n] ! i = 1 + int i" by (rule nth_upto)
  thus ?thesis using assms by (simp only: nth_map)
qed

lemmas fa_eval = findAncillary_def ndays_of_def Let_def ncepFile_def tomsFile_def
  dayofyear_def str_def str_nat.simps isLeapYear_def upto_rec1

text \<open>
  C7. The entries come in ascending order of the day, one per day: entry \<open>i\<close> (counted from
  0) belongs to day \<open>i + 1\<close> of a scan, and to the given day when one was given. The entry is
  true exactly when both files exist, the reanalysis file and the ozone file of that year
  and day under the base path, the day written with three digits, zeros in front. With one
  file missing the conjunction, and so the entry, is false.
  The day is taken from 0 on: below zero the code puts its zeros before the minus sign,
  which is no padding of a number.
\<close>

theorem findAncillary_entry:
  assumes "environ w ''ANC_PATH'' = Some base"
      and "findAncillary w year doy = Some doyList"
      and "i < length doyList"
      and "d = (if doy \<noteq> None \<and> doy \<noteq> Some (- 99) then the doy else 1 + int i)"
      and "0 \<le> d"
  shows "doyList ! i \<longleftrightarrow>
           isfile w (base @ ''/REANALYSIS/RE_'' @ str year @ ''/REANALYSIS_'' @ str year @
                     zero_pad3 d @ ''.hdf'') \<and>
           isfile w (base @ ''/EP_TOMS/ozone_'' @ str year @ ''/TOMS_'' @ str year @
                     zero_pad3 d @ ''.hdf'')"
proof -
  define n where "n = (if doy \<noteq> None \<and> doy \<noteq> Some (- 99) then 1
            else if year = now_year w then int (now_yday w)
            else if isLeapYear year then 366 else 365)"
  define f where "f = (\<lambda>r. isfile w (ncepFile base year (dayofyear
                              (if doy \<noteq> None \<and> doy \<noteq> Some (- 99) then the doy else r))) \<and>
                           isfile w (tomsFile base year (dayofyear
                              (if doy \<noteq> None \<and> doy \<noteq> Some (- 99) then the doy else r))))"
  have eq: "doyList = map f [1 .. n]"
    using assms(2) unfolding findAncillary_configured [OF assms(1)] n_def f_def by simp
  have "i < length [1 .. n]"
    using assms(3) unfolding eq by (simp only: length_map)
  hence "doyList ! i = f (1 + int i)"
    unfolding eq by (rule nth_map_upto)
  also have "f (1 + int i) \<longleftrightarrow> isfile w (ncepFile base year (dayofyear d)) \<and>
                          isfile w (tomsFile base year (dayofyear d))"
    unfolding f_def assms(4) by simp
  finally show ?thesis
    by (simp add: dayofyear_zero_pad3 [OF assms(5)] ncepFile_def tomsFile_def)
qed

theorem findAncillary_entry_witness:
  "environ early_2013 ''ANC_PATH'' = Some ''/anc'' \<and>
   findAncillary early_2013 2013 None = Some [False, True, False] \<and>
   1 < length [False, True, False] \<and>
   ([False, True, False] ! 1 \<longleftrightarrow>
      isfile early_2013 ''/anc/REANALYSIS/RE_2013/REANALYSIS_2013002.hdf'' \<and>
      isfile early_2013 ''/anc/EP_TOMS/ozone_2013/TOMS_2013002.hdf'') \<and>
   ([False, True, False] ! 2 \<longleftrightarrow>
      isfile early_2013 ''/anc/REANALYSIS/RE_2013/REANALYSIS_2013003.hdf'' \<and>
      isfile early_2013 ''/anc/EP_TOMS/ozone_2013/TOMS_2013003.hdf'') \<and>
   \<not> isfile early_2013 ''/anc/REANALYSIS/RE_2013/REANALYSIS_2013003.hdf'' \<and>
   isfile early_2013 ''/anc/EP_TOMS/ozone_2013/TOMS_2013003.hdf''"
proof -
  have h1: "environ early_2013 ''ANC_PATH'' = Some ''/anc''"
    by (simp add: early_2013_def example_world_def)
  have h2: "findAncillary early_2013 2013 None = Some [False, True, False]"
    by (simp add: fa_eval early_2013_def example_world_def)
  have h3: "1 < length [False, True, False]" "2 < length [False, True, False]"
    by simp_all
  have h4: "(2::int) = (if (None::int option) \<noteq> None \<and> None \<noteq> Some (- 99) then the None else 1 + int 1)"
    "(3::int) = (if (None::int option) \<noteq> None \<and> None \<noteq> Some (- 99) then the None else 1 + int 2)"
    by simp_all
  have pad: "zero_pad3 2 = ''002''" "zero_pad3 3 = ''003''"
    using dayofyear_zero_pad3 [of 2] dayofyear_zero_pad3 [of 3]
    by (simp_all add: dayofyear_def str_def str_nat.simps)
  have yr: "str 2013 = ''2013''"
    by (simp add: str_def str_nat.simps)
  have files: "\<not> isfile early_2013 ''/anc/REANALYSIS/RE_2013/REANALYSIS_2013003.hdf''"
    "isfile early_2013 ''/anc/EP_TOMS/ozone_2013/TOMS_2013003.hdf''"
    by (simp_all add: early_2013_def example_world_def)
  have e1: "[False, True, False] ! 1 \<longleftrightarrow>
      isfile early_2013 ''/anc/REANALYSIS/RE_2013/REANALYSIS_2013002.hdf'' \<and>
      isfile early_2013 ''/anc/EP_TOMS/ozone_2013/TOMS_2013002.hdf''"
    using findAncillary_entry [OF h1 h2 h3(1) h4(1)] unfolding pad yr by simp
  have e2: "[False, True, False] ! 2 \<longleftrightarrow>
      isfile early_2013 ''/anc/REANALYSIS/RE_2013/REANALYSIS_2013003.hdf'' \<and>
      isfile early_2013 ''/anc/EP_TOMS/ozone_2013/TOMS_2013003.hdf''"
    using findAncillary_entry [OF h1 h2 h3(2) h4(2)] unfolding pad yr by simp
  show ?thesis
    using h1 h2 h3(1) e1 e2 files by blast
qed

text \<open>
  C9. The result is \<^verbatim>\<open>None\<close> exactly when \<^verbatim>\<open>ANC_PATH\<close> is not set. When it is set, the result
  is a list of booleans with one entry for every day that was to be looked at, for every
  year and every day argument.
\<close>

theorem findAncillary_None_iff:
  "(findAncillary w year doy = None \<longleftrightarrow> environ w ''ANC_PATH'' = None) \<and>
   (environ w ''ANC_PATH'' \<noteq> None \<longrightarrow>
      (\<exists>doyList. findAncillary w year doy = Some doyList \<and>
         length doyList = nat (ndays_of w year (case doy of None \<Rightarrow> - 99 | Some d \<Rightarrow> d))))"
  by (cases "environ w ''ANC_PATH''")
     (simp_all add: findAncillary_def doy_loop_append Let_def)

theorem findAncillary_None_iff_witness:
  "environ example_world ''ANC_PATH'' \<noteq> None \<and>
   findAncillary example_world 2013 (Some 45) \<noteq> None \<and>
   (\<exists>doyList. findAncillary example_world 2013 None = Some doyList \<and> length doyList = 365) \<and>
   environ unconfigured ''ANC_PATH'' = None \<and>
   findAncillary unconfigured 2013 (Some 45) = None \<and>
   findAncillary unconfigured 2013 None = None"
  using findAncillary_None_iff [of example_world 2013 "Some 45"]
    findAncillary_None_iff [of example_world 2013 None]
    findAncillary_None_iff [of unconfigured 2013 "Some 45"]
    findAncillary_None_iff [of unconfigured 2013 None]
  by (simp add: unconfigured_def example_world_def ndays_of_def isLeapYear_def)



section \<open>Lemmas about the pipeline\<close>

subsection \<open>The body of \<^verbatim>\<open>runLedaps\<close> is a loop over the stage commands\<close>

lemma followed_by_and_then:
  "followed_by (and_then b c) rest = followed_by b (followed_by c rest)"
  by (rule ext) (simp add: followed_by_def and_then_def split: prod.splits option.splits)

lemma followed_by_skip: "followed_by skip rest = rest"
  by (rule ext) (simp add: followed_by_def skip_def)

lemma run_list_last: "run_list mydir [] = (\<lambda>w. (chdir mydir w, SUCCESS))"
  by (rule ext) simp

lemma run_list_Cons:
  "run_list mydir (c # cs) = followed_by (run_checked mydir c) (run_list mydir cs)"
  by (rule ext) simp

lemma run_stages_run_list:
  "run_stages mydir base_xmlfile xml process_sr pc =
     run_list mydir (stage_commands base_xmlfile xml process_sr pc)"
  by (cases pc; cases "process_sr = ''True''")
     (simp_all add: run_stages_def Let_def stage_commands_def followed_by_and_then
        followed_by_skip run_list_Cons run_list_last del: run_list.simps)

text \<open>
  What the loop does to the world: it ends in the directory \<open>mydir\<close>, it has entered the
  attempted commands into the history, all of them started in the directory the loop began
  in, and it returns \<^verbatim>\<open>ERROR\<close> exactly when one of the commands fails.
\<close>

lemma run_list_eq:
  "run_list mydir cs w =
     (w\<lparr>cwd := mydir,
        invoked := invoked w @
          map (record_of w (cwd w)) (attempted (\<lambda>c. fst (getstatusoutput w (cwd w) c)) cs)\<rparr>,
      if \<exists>c \<in> set cs. drop_bit 8 (fst (getstatusoutput w (cwd w) c)) \<noteq> 0
      then ERROR else SUCCESS)"
proof (induction cs arbitrary: w)
  case Nil
  show ?case by (simp add: chdir_def)
next
  case (Cons c cs)
  show ?case
    by (simp add: Cons.IH followed_by_def run_checked_def commands_getstatusoutput_def
          chdir_def record_of_def split_beta Let_def)
qed

subsection \<open>The commands that are attempted\<close>

lemma attempted_prefix: "prefix (attempted st cs) cs"
  by (induction cs) simp_all

lemma attempted_subset: "set (attempted st cs) \<subseteq> set cs"
  by (induction cs) auto

lemma attempted_Nil_iff: "attempted st cs = [] \<longleftrightarrow> cs = []"
  by (cases cs) simp_all

lemma attempted_butlast: "c \<in> set (butlast (attempted st cs)) \<Longrightarrow> drop_bit 8 (st c) = 0"
  by (induction cs) (auto simp: attempted_Nil_iff split: if_splits)

lemma attempted_last:
  "cs \<noteq> [] \<Longrightarrow>
   drop_bit 8 (st (last (attempted st cs))) \<noteq> 0 \<longleftrightarrow> (\<exists>c \<in> set cs. drop_bit 8 (st c) \<noteq> 0)"
  by (induction cs) (auto simp: attempted_Nil_iff)


lemma attempted_all_ok:
  "(\<forall>c \<in> set cs. drop_bit 8 (st c) = 0) \<Longrightarrow> attempted st cs = cs"
  by (induction cs) simp_all

lemma attempted_ok_iff:
  "attempted st cs = cs \<longleftrightarrow> (\<forall>c \<in> set (butlast cs). drop_bit 8 (st c) = 0)"
  by (induction cs) (auto simp: attempted_Nil_iff)

subsection \<open>The whole of \<^verbatim>\<open>runLedaps\<close>\<close>

lemma stage_commands_not_Nil: "stage_commands base_xmlfile xml process_sr pc \<noteq> []"
  by (simp add: stage_commands_def)

text \<open>
  The directory in which the stages run, and the outcome of a call that gets as far as the
  stages, with the working directory back where it was.
\<close>

lemma runLedaps_eq:
  "runLedaps w x p =
     (case parameters w x p of
        Inl out \<Rightarrow> (w, out)
      | Inr (xmlfile, process_sr) \<Rightarrow>
          if \<not> isfile w xmlfile \<or> \<not> access_W_OK w (dirname (abspath w (cwd w) xmlfile))
          then (w, Return ERROR)
          else
            (case processing_collection (basename xmlfile) of
               None \<Rightarrow> (w, Return ERROR)
             | Some pc \<Rightarrow>
                 (w\<lparr>invoked := invoked w @
                      map (record_of w (dirname (abspath w (cwd w) xmlfile)))
                        (attempted (\<lambda>c. fst (getstatusoutput w (dirname (abspath w (cwd w) xmlfile)) c))
                           (stage_commands (basename xmlfile) (re_sub_xml (basename xmlfile))
                              process_sr pc))\<rparr>,
                  Return
                    (if \<exists>c \<in> set (stage_commands (basename xmlfile)
                                      (re_sub_xml (basename xmlfile)) process_sr pc).
                          drop_bit 8 (fst (getstatusoutput w
                             (dirname (abspath w (cwd w) xmlfile)) c)) \<noteq> 0
                     then ERROR else SUCCESS))))"
  by (simp add: runLedaps_def run_stages_run_list run_list_eq chdir_def record_of_def Let_def
        split: sum.splits option.splits prod.splits)

text \<open>The same, one way out at a time.\<close>

lemma runLedaps_exit:
  "parameters w x p = Inl out \<Longrightarrow> runLedaps w x p = (w, out)"
  by (simp add: runLedaps_eq)

lemma runLedaps_rejected:
  assumes "parameters w x p = Inr (xmlfile, process_sr)"
      and "\<not> isfile w xmlfile \<or> \<not> access_W_OK w (dirname (abspath w (cwd w) xmlfile)) \<or>
           processing_collection (basename xmlfile) = None"
  shows "runLedaps w x p = (w, Return ERROR)"
  using assms by (auto simp: runLedaps_eq)

lemma runLedaps_staged:
  assumes "parameters w x p = Inr (xmlfile, process_sr)"
      and "isfile w xmlfile"
      and "access_W_OK w d"
      and "processing_collection (basename xmlfile) = Some pc"
      and "d = dirname (abspath w (cwd w) xmlfile)"
      and "cs = stage_commands (basename xmlfile) (re_sub_xml (basename xmlfile)) process_sr pc"
      and "st = (\<lambda>c. fst (getstatusoutput w d c))"
  shows "runLedaps w x p =
           (w\<lparr>invoked := invoked w @ map (record_of w d) (attempted st cs)\<rparr>,
            Return (if \<exists>c \<in> set cs. drop_bit 8 (st c) \<noteq> 0 then ERROR else SUCCESS))"
  using assms by (simp add: runLedaps_eq)

lemma parameters_all_succeed: "parameters (all_succeed w) x p = parameters w x p"
  by (simp add: parameters_def all_succeed_def split: option.splits)

subsection \<open>Runs on the example machines, computed from the definitions\<close>

lemmas run_eval = runLedaps_def parameters_def basename_def dirname_def re_sub_xml_def
  endswith_def processing_collection_def prefixes_old_def prefixes_collection_def
  run_stages_def followed_by_def and_then_def skip_def run_checked_def
  commands_getstatusoutput_def chdir_def Let_def ERROR_def SUCCESS_def

lemma run_LT5_sr:
  "runLedaps example_world (Some ''/data/LT5base.xml'') ''True'' =
     (example_world\<lparr>invoked :=
        [\<lparr>inv_dir = ''/data'', inv_cmd = ''lndpm --xml LT5base.xml --process_sr=true'', inv_status = 0\<rparr>,
         \<lparr>inv_dir = ''/data'', inv_cmd = ''lndcal --pfile lndcal.LT5base.txt '', inv_status = 0\<rparr>,
         \<lparr>inv_dir = ''/data'', inv_cmd = ''lndsr --pfile lndsr.LT5base.txt '', inv_status = 0\<rparr>,
         \<lparr>inv_dir = ''/data'', inv_cmd = ''lndsrbm.py -f lndsr.LT5base.txt'', inv_status = 0\<rparr>]\<rparr>,
      Return 0)"
  by (simp add: run_eval example_world_def)

lemma run_LT5_lowercase_true:
  "runLedaps example_world (Some ''/data/LT5base.xml'') ''true'' =
     (example_world\<lparr>invoked :=
        [\<lparr>inv_dir = ''/data'', inv_cmd = ''lndpm --xml LT5base.xml --process_sr=false'', inv_status = 0\<rparr>,
         \<lparr>inv_dir = ''/data'', inv_cmd = ''lndcal --pfile lndcal.LT5base.txt '', inv_status = 0\<rparr>]\<rparr>,
      Return 0)"
  by (simp add: run_eval example_world_def)


lemma run_LE07_sr:
  "runLedaps example_world (Some ''/data/LE07_L1TP.xml'') ''True'' =
     (example_world\<lparr>invoked :=
        [\<lparr>inv_dir = ''/data'', inv_cmd = ''create_landsat_angle_bands --xml LE07_L1TP.xml'', inv_status = 0\<rparr>,
         \<lparr>inv_dir = ''/data'', inv_cmd = ''lndpm --xml LE07_L1TP.xml --process_sr=true'', inv_status = 0\<rparr>,
         \<lparr>inv_dir = ''/data'', inv_cmd = ''lndcal --pfile lndcal.LE07_L1TP.txt --process_collection'', inv_status = 0\<rparr>,
         \<lparr>inv_dir = ''/data'', inv_cmd = ''lndsr --pfile lndsr.LE07_L1TP.txt --process_collection'', inv_status = 0\<rparr>]\<rparr>,
      Return 0)"
  by (simp add: run_eval example_world_def)

lemma run_XX1:
  "runLedaps example_world (Some ''/data/XX1_foo.xml'') ''True'' = (example_world, Return 1)"
  by (simp add: run_eval example_world_def)

lemma run_LT5_lndcal_fails:
  "runLedaps lndcal_fails (Some ''/data/LT5base.xml'') ''True'' =
     (lndcal_fails\<lparr>invoked :=
        [\<lparr>inv_dir = ''/data'', inv_cmd = ''lndpm --xml LT5base.xml --process_sr=true'', inv_status = 0\<rparr>,
         \<lparr>inv_dir = ''/data'', inv_cmd = ''lndcal --pfile lndcal.LT5base.txt '', inv_status = 256\<rparr>]\<rparr>,
      Return 1)"
  by (simp add: run_eval lndcal_fails_def example_world_def)

lemma invoked_example [simp]: "invoked example_world = []" "invoked lndcal_fails = []"
  by (simp_all add: lndcal_fails_def example_world_def)

lemma cwd_example [simp]: "cwd example_world = ''/home/user''" "cwd lndcal_fails = ''/home/user''"
  by (simp_all add: lndcal_fails_def example_world_def)

section \<open>The pipeline \<^verbatim>\<open>runLedaps\<close>\<close>

text \<open>
  C1. Whatever the arguments and the surroundings, and whichever way the call ends, the
  working directory after the call is the working directory before it. The ways out that
  come after the change of directory (the name that is not recognised, a failing stage,
  the successful end) all go back first; those before it never left.
\<close>

theorem runLedaps_restores_cwd:
  "cwd (fst (runLedaps w xmlfile process_sr)) = cwd w"
  by (simp add: runLedaps_eq split: sum.splits option.splits prod.splits)

theorem runLedaps_restores_cwd_witness:
  "cwd (fst (runLedaps lndcal_fails (Some ''/data/LT5base.xml'') ''True'')) = ''/home/user'' \<and>
   cwd (fst (runLedaps example_world (Some ''/data/XX1_foo.xml'') ''True'')) = ''/home/user'' \<and>
   cwd (fst (runLedaps example_world (Some ''/data/LE07_L1TP.xml'') ''True'')) = ''/home/user''"
  using runLedaps_restores_cwd [of lndcal_fails "Some ''/data/LT5base.xml''" "''True''"]
    runLedaps_restores_cwd [of example_world "Some ''/data/XX1_foo.xml''" "''True''"]
    runLedaps_restores_cwd [of example_world "Some ''/data/LE07_L1TP.xml''" "''True''"]
  by simp

text \<open>
  That the directory does change in between shows in the history: every stage of a run is
  started in the directory of the XML file.
\<close>

lemma stages_run_in_xmldir:
  assumes "parameters w x p = Inr (xmlfile, process_sr)"
      and "call \<in> set (new_invocations w (fst (runLedaps w x p)))"
  shows "inv_dir call = dirname (abspath w (cwd w) xmlfile)"
  using assms
  by (auto simp: runLedaps_eq new_invocations_def record_of_def split: option.splits if_splits)

lemma stages_run_in_xmldir_example:
  "new_invocations lndcal_fails
     (fst (runLedaps lndcal_fails (Some ''/data/LT5base.xml'') ''True'')) \<noteq> [] \<and>
   (\<forall>call \<in> set (new_invocations lndcal_fails
                  (fst (runLedaps lndcal_fails (Some ''/data/LT5base.xml'') ''True''))).
      inv_dir call = ''/data'') \<and>
   cwd (fst (runLedaps lndcal_fails (Some ''/data/LT5base.xml'') ''True'')) = ''/home/user'' \<and>
   cwd (fst (runLedaps example_world (Some ''/data/XX1_foo.xml'') ''True'')) = ''/home/user''"
  by (simp add: run_LT5_lndcal_fails run_XX1 new_invocations_def)

text \<open>
  C2. Take any call and the part of the history it added. The history only grows, and each
  entry holds the status word that the command gave. Every entry before the last has a
  status word that is zero after the shift by eight bits, so nothing is run after a stage
  whose shifted status is not zero. When the last entry is such a stage the call returns
  \<^verbatim>\<open>ERROR\<close>, and when the last entry has the shifted status zero the call returns
  \<^verbatim>\<open>SUCCESS\<close>. The commands run are an initial piece of the commands that the same call
  runs when every program succeeds: what is missing are the later stages.
\<close>

theorem runLedaps_stops_at_first_failure:
  assumes "runLedaps w x p = (w', r)"
      and "new = new_invocations w w'"
  shows "invoked w' = invoked w @ new \<and>
         (\<forall>call \<in> set new.
            inv_status call = fst (getstatusoutput w (inv_dir call) (inv_cmd call))) \<and>
         (\<forall>call \<in> set (butlast new). drop_bit 8 (inv_status call) = 0) \<and>
         (new \<noteq> [] \<longrightarrow>
            (drop_bit 8 (inv_status (last new)) \<noteq> 0 \<longleftrightarrow> r = Return ERROR) \<and>
            (drop_bit 8 (inv_status (last new)) = 0 \<longleftrightarrow> r = Return SUCCESS)) \<and>
         prefix (map inv_cmd new)
           (map inv_cmd (new_invocations w (fst (runLedaps (all_succeed w) x p))))"
proof (cases "parameters w x p")
  case (Inl out)
  hence "parameters (all_succeed w) x p = Inl out"
    by (simp add: parameters_all_succeed)
  hence "runLedaps (all_succeed w) x p = (all_succeed w, out)"
    by (rule runLedaps_exit)
  moreover have "w' = w"
    using assms(1) runLedaps_exit [OF Inl] by simp
  ultimately show ?thesis using assms(2)
    by (simp add: new_invocations_def all_succeed_def)
next
  case (Inr a)
  obtain xmlfile sr where a: "a = (xmlfile, sr)" by (cases a)
  have par: "parameters (all_succeed w) x p = Inr (xmlfile, sr)"
    using Inr a by (simp add: parameters_all_succeed)
  define d where "d = dirname (abspath w (cwd w) xmlfile)"
  define st where "st = (\<lambda>c. fst (getstatusoutput w d c))"
  show ?thesis
  proof (cases "\<not> isfile w xmlfile \<or> \<not> access_W_OK w d \<or>
                processing_collection (basename xmlfile) = None")
    case True
    hence "runLedaps w x p = (w, Return ERROR)"
      using Inr a by (intro runLedaps_rejected [of w x p xmlfile sr]) (auto simp: d_def)
    hence "w' = w" "new = []"
      using assms by (simp_all add: new_invocations_def)
    thus ?thesis by simp
  next
    case False
    then obtain pc where pc: "processing_collection (basename xmlfile) = Some pc"
      by auto
    define cs where "cs = stage_commands (basename xmlfile) (re_sub_xml (basename xmlfile)) sr pc"
    have cs_ne: "cs \<noteq> []"
      by (simp add: cs_def stage_commands_not_Nil)
    have "runLedaps w x p =
            (w\<lparr>invoked := invoked w @ map (record_of w d) (attempted st cs)\<rparr>,
             Return (if \<exists>c \<in> set cs. drop_bit 8 (st c) \<noteq> 0 then ERROR else SUCCESS))"
      using Inr a False pc d_def cs_def st_def
      by (intro runLedaps_staged [of w x p xmlfile sr d pc cs st]) auto
    hence run: "w' = w\<lparr>invoked := invoked w @ map (record_of w d) (attempted st cs)\<rparr>"
              "r = Return (if \<exists>c \<in> set cs. drop_bit 8 (st c) \<noteq> 0 then ERROR else SUCCESS)"
      using assms(1) by simp_all
    have new: "new = map (record_of w d) (attempted st cs)"
      using assms(2) run(1) by (simp add: new_invocations_def)
    have "runLedaps (all_succeed w) x p =
            ((all_succeed w)\<lparr>invoked := invoked (all_succeed w) @
                map (record_of (all_succeed w) d) (attempted (\<lambda>c. 0) cs)\<rparr>,
             Return (if \<exists>c \<in> set cs. drop_bit 8 (0::int) \<noteq> 0 then ERROR else SUCCESS))"
      using par False pc d_def cs_def
      by (intro runLedaps_staged [of "all_succeed w" x p xmlfile sr d pc cs "\<lambda>c. 0"])
         (auto simp: all_succeed_def)
    hence ok: "fst (runLedaps (all_succeed w) x p) =
                (all_succeed w)\<lparr>invoked := invoked w @ map (record_of (all_succeed w) d) cs\<rparr>"
      by (simp add: attempted_all_ok all_succeed_def)
    have 1: "invoked w' = invoked w @ new"
      using run(1) new by simp
    have 2: "\<forall>call \<in> set new. inv_status call = fst (getstatusoutput w (inv_dir call) (inv_cmd call))"
      by (auto simp: new record_of_def)
    have 3: "\<forall>call \<in> set (butlast new). drop_bit 8 (inv_status call) = 0"
      using attempted_butlast [of _ st cs]
      by (auto simp: new map_butlast [symmetric] record_of_def st_def)
    have ne: "attempted st cs \<noteq> []"
      using cs_ne by (simp add: attempted_Nil_iff)
    have last: "inv_status (last new) = st (last (attempted st cs))"
      using ne by (simp add: new last_map record_of_def st_def)
    have 4: "(drop_bit 8 (inv_status (last new)) \<noteq> 0 \<longleftrightarrow> r = Return ERROR) \<and>
             (drop_bit 8 (inv_status (last new)) = 0 \<longleftrightarrow> r = Return SUCCESS)"
      unfolding last using attempted_last [OF cs_ne, of st]
      by (auto simp: run(2) ERROR_def SUCCESS_def)
    have 5: "prefix (map inv_cmd new)
               (map inv_cmd (new_invocations w (fst (runLedaps (all_succeed w) x p))))"
      using attempted_prefix [of st cs] unfolding ok
      by (simp add: new new_invocations_def all_succeed_def record_of_def comp_def)
    show ?thesis using 1 2 3 4 5 by blast
  qed
qed

theorem runLedaps_stops_at_first_failure_witness:
  "runLedaps lndcal_fails (Some ''/data/LT5base.xml'') ''True'' =
     (lndcal_fails\<lparr>invoked :=
        [\<lparr>inv_dir = ''/data'', inv_cmd = ''lndpm --xml LT5base.xml --process_sr=true'', inv_status = 0\<rparr>,
         \<lparr>inv_dir = ''/data'', inv_cmd = ''lndcal --pfile lndcal.LT5base.txt '', inv_status = 256\<rparr>]\<rparr>,
      Return ERROR) \<and>
   drop_bit 8 (0::int) = 0 \<and> drop_bit 8 (256::int) \<noteq> 0 \<and>
   prefix [''lndpm --xml LT5base.xml --process_sr=true'', ''lndcal --pfile lndcal.LT5base.txt '']
     (map inv_cmd (new_invocations lndcal_fails
        (fst (runLedaps (all_succeed lndcal_fails) (Some ''/data/LT5base.xml'') ''True''))))"
proof -
  have run: "runLedaps lndcal_fails (Some ''/data/LT5base.xml'') ''True'' =
     (lndcal_fails\<lparr>invoked :=
        [\<lparr>inv_dir = ''/data'', inv_cmd = ''lndpm --xml LT5base.xml --process_sr=true'', inv_status = 0\<rparr>,
         \<lparr>inv_dir = ''/data'', inv_cmd = ''lndcal --pfile lndcal.LT5base.txt '', inv_status = 256\<rparr>]\<rparr>,
      Return ERROR)"
    by (simp add: run_LT5_lndcal_fails ERROR_def)
  have new: "[\<lparr>inv_dir = ''/data'', inv_cmd = ''lndpm --xml LT5base.xml --process_sr=true'', inv_status = 0\<rparr>,
         \<lparr>inv_dir = ''/data'', inv_cmd = ''lndcal --pfile lndcal.LT5base.txt '', inv_status = 256\<rparr>] =
        new_invocations lndcal_fails (lndcal_fails\<lparr>invoked :=
        [\<lparr>inv_dir = ''/data'', inv_cmd = ''lndpm --xml LT5base.xml --process_sr=true'', inv_status = 0\<rparr>,
         \<lparr>inv_dir = ''/data'', inv_cmd = ''lndcal --pfile lndcal.LT5base.txt '', inv_status = 256\<rparr>]\<rparr>)"
    by (simp add: new_invocations_def)
  show ?thesis
    using run runLedaps_stops_at_first_failure [OF run new] by simp
qed

subsection \<open>Names, programs and words\<close>

lemma classification_disjoint:
  assumes "take 4 b \<in> set prefixes_collection"
  shows "take 3 b \<notin> set prefixes_old"
proof -
  have eq: "take 3 b = take 3 (take 4 b)" by simp
  from assms consider "take 4 b = ''LT04''" | "take 4 b = ''LT05''" | "take 4 b = ''LE07''"
    by (auto simp: prefixes_collection_def)
  hence "take 3 (take 4 b) \<in> {''LT0'', ''LE0''}"
    by cases (simp_all only: take_Cons_numeral take_Cons' take.simps, simp_all)
  thus ?thesis unfolding eq [symmetric] by (auto simp: prefixes_old_def)
qed

lemma processing_collection_iff:
  "processing_collection b = Some False \<longleftrightarrow> take 3 b \<in> {''LT4'', ''LT5'', ''LE7''}"
  "processing_collection b = Some True \<longleftrightarrow> take 4 b \<in> {''LT04'', ''LT05'', ''LE07''}"
  "processing_collection b = None \<longleftrightarrow>
     take 3 b \<notin> {''LT4'', ''LT5'', ''LE7''} \<and> take 4 b \<notin> {''LT04'', ''LT05'', ''LE07''}"
  using classification_disjoint [of b]
  by (auto simp: processing_collection_def prefixes_old_def prefixes_collection_def)

lemma hd_attempted: "cs \<noteq> [] \<Longrightarrow> hd (attempted st cs) = hd cs"
  by (cases cs) simp_all

lemma program_stage_commands:
  "map program (stage_commands b xml process_sr pc) =
     (if pc then [''create_landsat_angle_bands''] else []) @ [''lndpm'', ''lndcal''] @
     (if process_sr = ''True'' then ''lndsr'' # (if \<not> pc then [''lndsrbm.py''] else []) else [])"
  by (simp add: stage_commands_def program_def)

lemma words_from_no_blank:
  "CHR '' '' \<notin> set t \<Longrightarrow> words_from cur t = (if cur @ t = [] then [] else [cur @ t])"
  by (induction t arbitrary: cur) auto

lemma words_from_trailing_blank: "words_from cur (a @ '' '') = words_from cur a"
  by (induction a arbitrary: cur) simp_all

lemma words_from_last_word:
  "CHR '' '' \<notin> set t \<Longrightarrow> t \<noteq> [] \<Longrightarrow> words_from cur (a @ '' '' @ t) = words_from cur a @ [t]"
  by (induction a arbitrary: cur) (simp_all add: words_from_no_blank)

lemma shell_words_trailing_blank: "shell_words (a @ '' '') = shell_words a"
  by (simp add: shell_words_def words_from_trailing_blank)

lemma shell_words_last_word:
  "CHR '' '' \<notin> set t \<Longrightarrow> t \<noteq> [] \<Longrightarrow> shell_words (a @ '' '' @ t) = shell_words a @ [t]"
  unfolding shell_words_def by (rule words_from_last_word)

text \<open>
  C3. The scene counts as pre-collection exactly when the first three characters of the
  base name are \<^verbatim>\<open>LT4\<close>, \<^verbatim>\<open>LT5\<close> or \<^verbatim>\<open>LE7\<close>, and as collection exactly when the first four
  are \<^verbatim>\<open>LT04\<close>, \<^verbatim>\<open>LT05\<close> or \<^verbatim>\<open>LE07\<close>. With any other name the call returns \<^verbatim>\<open>ERROR\<close> and
  leaves the world as it was: no external program has been run. In a call that gets as far
  as the classification (the file exists, its directory is writable) the class shows in the
  first program that is run: \<^verbatim>\<open>lndpm\<close> exactly for the pre-collection names,
  \<^verbatim>\<open>create_landsat_angle_bands\<close> exactly for the collection names.
\<close>

theorem runLedaps_classification:
  assumes "parameters w x p = Inr (xmlfile, process_sr)"
      and "b = basename xmlfile"
      and "new = new_invocations w (fst (runLedaps w x p))"
  shows "(processing_collection b = Some False \<longleftrightarrow> take 3 b \<in> {''LT4'', ''LT5'', ''LE7''}) \<and>
         (processing_collection b = Some True \<longleftrightarrow> take 4 b \<in> {''LT04'', ''LT05'', ''LE07''}) \<and>
         (take 3 b \<notin> {''LT4'', ''LT5'', ''LE7''} \<and> take 4 b \<notin> {''LT04'', ''LT05'', ''LE07''} \<longrightarrow>
            runLedaps w x p = (w, Return ERROR)) \<and>
         (isfile w xmlfile \<and> access_W_OK w (dirname (abspath w (cwd w) xmlfile)) \<longrightarrow>
            (take 3 b \<in> {''LT4'', ''LT5'', ''LE7''} \<longleftrightarrow>
               new \<noteq> [] \<and> program (inv_cmd (hd new)) = ''lndpm'') \<and>
            (take 4 b \<in> {''LT04'', ''LT05'', ''LE07''} \<longleftrightarrow>
               new \<noteq> [] \<and> program (inv_cmd (hd new)) = ''create_landsat_angle_bands''))"
proof -
  define d where "d = dirname (abspath w (cwd w) xmlfile)"
  have unrecognised: "runLedaps w x p = (w, Return ERROR)"
    if "processing_collection b = None"
    using that assms(1,2) by (intro runLedaps_rejected [of w x p xmlfile process_sr]) auto
  have first: "(processing_collection b = Some False \<longleftrightarrow>
                  new \<noteq> [] \<and> program (inv_cmd (hd new)) = ''lndpm'') \<and>
               (processing_collection b = Some True \<longleftrightarrow>
                  new \<noteq> [] \<and> program (inv_cmd (hd new)) = ''create_landsat_angle_bands'')"
    if reach: "isfile w xmlfile" "access_W_OK w d"
  proof (cases "processing_collection b")
    case None
    hence "new = []"
      using unrecognised assms(3) by (simp add: new_invocations_def)
    thus ?thesis using None by simp
  next
    case (Some pc)
    define cs where "cs = stage_commands b (re_sub_xml b) process_sr pc"
    define st where "st = (\<lambda>c. fst (getstatusoutput w d c))"
    have cs_ne: "cs \<noteq> []"
      by (simp add: cs_def stage_commands_not_Nil)
    have "runLedaps w x p =
            (w\<lparr>invoked := invoked w @ map (record_of w d) (attempted st cs)\<rparr>,
             Return (if \<exists>c \<in> set cs. drop_bit 8 (st c) \<noteq> 0 then ERROR else SUCCESS))"
      using assms(1,2) reach Some d_def cs_def st_def
      by (intro runLedaps_staged [of w x p xmlfile process_sr d pc cs st]) auto
    hence new: "new = map (record_of w d) (attempted st cs)"
      using assms(3) by (simp add: new_invocations_def)
    have ne: "new \<noteq> []"
      using cs_ne by (simp add: new attempted_Nil_iff)
    have "inv_cmd (hd new) = hd cs"
      using cs_ne by (simp add: new hd_map attempted_Nil_iff hd_attempted record_of_def)
    also have "program (hd cs) = hd (map program cs)"
      using cs_ne by (simp add: hd_map)
    also have "\<dots> = (if pc then ''create_landsat_angle_bands'' else ''lndpm'')"
      unfolding cs_def program_stage_commands by simp
    finally show ?thesis using Some ne by auto
  qed
  show ?thesis
    using processing_collection_iff [of b] unrecognised first unfolding d_def by blast
qed

theorem runLedaps_classification_witness:
  "parameters example_world (Some ''/data/XX1_foo.xml'') ''True'' = Inr (''/data/XX1_foo.xml'', ''True'') \<and>
   basename ''/data/XX1_foo.xml'' = ''XX1_foo.xml'' \<and>
   isfile example_world ''/data/XX1_foo.xml'' \<and>
   take 3 ''XX1_foo.xml'' \<notin> {''LT4'', ''LT5'', ''LE7''} \<and>
   take 4 ''XX1_foo.xml'' \<notin> {''LT04'', ''LT05'', ''LE07''} \<and>
   runLedaps example_world (Some ''/data/XX1_foo.xml'') ''True'' = (example_world, Return ERROR) \<and>
   processing_collection ''LT5base.xml'' = Some False \<and>
   processing_collection ''LE07_L1TP.xml'' = Some True \<and>
   isfile example_world ''/data/LE07_L1TP.xml'' \<and>
   access_W_OK example_world
     (dirname (abspath example_world (cwd example_world) ''/data/LE07_L1TP.xml'')) \<and>
   program (inv_cmd (hd (new_invocations example_world
      (fst (runLedaps example_world (Some ''/data/LE07_L1TP.xml'') ''False''))))) =
     ''create_landsat_angle_bands'' \<and>
   program (inv_cmd (hd (new_invocations example_world
      (fst (runLedaps example_world (Some ''/data/LT5base.xml'') ''True''))))) = ''lndpm''"
proof -
  have p: "parameters example_world (Some ''/data/XX1_foo.xml'') ''True'' = Inr (''/data/XX1_foo.xml'', ''True'')"
    "parameters example_world (Some ''/data/LE07_L1TP.xml'') ''False'' = Inr (''/data/LE07_L1TP.xml'', ''False'')"
    "parameters example_world (Some ''/data/LT5base.xml'') ''True'' = Inr (''/data/LT5base.xml'', ''True'')"
    by (simp_all add: parameters_def)
  have b: "''XX1_foo.xml'' = basename ''/data/XX1_foo.xml''"
    "''LE07_L1TP.xml'' = basename ''/data/LE07_L1TP.xml''"
    "''LT5base.xml'' = basename ''/data/LT5base.xml''"
    by (simp_all add: basename_def)
  have reach: "isfile example_world ''/data/LE07_L1TP.xml''"
    "access_W_OK example_world
       (dirname (abspath example_world (cwd example_world) ''/data/LE07_L1TP.xml''))"
    "isfile example_world ''/data/LT5base.xml''"
    "access_W_OK example_world
       (dirname (abspath example_world (cwd example_world) ''/data/LT5base.xml''))"
    "isfile example_world ''/data/XX1_foo.xml''"
    by (simp_all add: example_world_def dirname_def)
  have no: "take 3 ''XX1_foo.xml'' \<notin> {''LT4'', ''LT5'', ''LE7''}"
    "take 4 ''XX1_foo.xml'' \<notin> {''LT04'', ''LT05'', ''LE07''}"
    by simp_all
  have 1: "runLedaps example_world (Some ''/data/XX1_foo.xml'') ''True'' = (example_world, Return ERROR)"
    using runLedaps_classification [OF p(1) b(1) refl] no by blast
  have "take 4 ''LE07_L1TP.xml'' \<in> {''LT04'', ''LT05'', ''LE07''}"
    by simp
  hence 2: "processing_collection ''LE07_L1TP.xml'' = Some True \<and>
    program (inv_cmd (hd (new_invocations example_world
      (fst (runLedaps example_world (Some ''/data/LE07_L1TP.xml'') ''False''))))) =
     ''create_landsat_angle_bands''"
    using runLedaps_classification [OF p(2) b(2) refl] reach(1,2) by blast
  have "take 3 ''LT5base.xml'' \<in> {''LT4'', ''LT5'', ''LE7''}"
    by simp
  hence 3: "processing_collection ''LT5base.xml'' = Some False \<and>
    program (inv_cmd (hd (new_invocations example_world
      (fst (runLedaps example_world (Some ''/data/LT5base.xml'') ''True''))))) = ''lndpm''"
    using runLedaps_classification [OF p(3) b(3) refl] reach(3,4) by blast
  show ?thesis
    using p(1) b(1) [symmetric] reach(1,2,5) no 1 2 3 by blast
qed

text \<open>
  What the string that the body tests decides, whatever its origin: the word that \<^verbatim>\<open>lndpm\<close>
  is given, and whether \<^verbatim>\<open>lndsr\<close> follows a successful \<^verbatim>\<open>lndcal\<close>.
\<close>

lemma process_sr_tested:
  assumes "parameters w x p = Inr (xmlfile, process_sr)"
      and "new = new_invocations w (fst (runLedaps w x p))"
  shows "(\<forall>call \<in> set new. program (inv_cmd call) = ''lndpm'' \<longrightarrow>
            inv_cmd call = ''lndpm --xml '' @ basename xmlfile @ '' '' @
              (if process_sr = ''True'' then ''--process_sr=true'' else ''--process_sr=false'') \<and>
            (last (shell_words (inv_cmd call)) = ''--process_sr=true'' \<longleftrightarrow> process_sr = ''True'') \<and>
            (last (shell_words (inv_cmd call)) = ''--process_sr=false'' \<longleftrightarrow> process_sr \<noteq> ''True'')) \<and>
         ((\<exists>call \<in> set new. program (inv_cmd call) = ''lndsr'') \<longleftrightarrow>
            process_sr = ''True'' \<and>
            (\<exists>call \<in> set new. program (inv_cmd call) = ''lndcal'' \<and>
                                drop_bit 8 (inv_status call) = 0))"
proof -
  define d where "d = dirname (abspath w (cwd w) xmlfile)"
  define b where "b = basename xmlfile"
  show ?thesis
  proof (cases "\<not> isfile w xmlfile \<or> \<not> access_W_OK w d \<or> processing_collection b = None")
    case True
    hence "runLedaps w x p = (w, Return ERROR)"
      using assms(1) by (intro runLedaps_rejected [of w x p xmlfile process_sr]) (auto simp: d_def b_def)
    hence "new = []"
      using assms(2) by (simp add: new_invocations_def)
    thus ?thesis by simp
  next
    case False
    then obtain pc where pc: "processing_collection b = Some pc"
      by auto
    define cs where "cs = stage_commands b (re_sub_xml b) process_sr pc"
    define st where "st = (\<lambda>c. fst (getstatusoutput w d c))"
    have "runLedaps w x p =
            (w\<lparr>invoked := invoked w @ map (record_of w d) (attempted st cs)\<rparr>,
             Return (if \<exists>c \<in> set cs. drop_bit 8 (st c) \<noteq> 0 then ERROR else SUCCESS))"
      using assms(1) False pc d_def cs_def st_def b_def
      by (intro runLedaps_staged [of w x p xmlfile process_sr d pc cs st]) auto
    hence new: "new = map (record_of w d) (attempted st cs)"
      using assms(2) by (simp add: new_invocations_def)
    define t where
      "t = (if process_sr = ''True'' then ''--process_sr=true'' else ''--process_sr=false'')"
    have t: "t = ''--process_sr=true'' \<longleftrightarrow> process_sr = ''True''"
            "t = ''--process_sr=false'' \<longleftrightarrow> process_sr \<noteq> ''True''"
            "CHR '' '' \<notin> set t" "t \<noteq> []"
      by (simp_all add: t_def)
    have lndpm: "c = ''lndpm --xml '' @ b @ '' '' @ t"
      if "c \<in> set cs" "program c = ''lndpm''" for c
      using that by (auto simp: cs_def stage_commands_def program_def t_def split: if_splits)
    have "shell_words ((''lndpm --xml '' @ b) @ '' '' @ t) = shell_words (''lndpm --xml '' @ b) @ [t]"
      using t(3,4) by (rule shell_words_last_word)
    hence words: "last (shell_words (''lndpm --xml '' @ b @ '' '' @ t)) = t"
      by simp
    have 1: "\<forall>call \<in> set new. program (inv_cmd call) = ''lndpm'' \<longrightarrow>
            inv_cmd call = ''lndpm --xml '' @ b @ '' '' @ t \<and>
            (last (shell_words (inv_cmd call)) = ''--process_sr=true'' \<longleftrightarrow> process_sr = ''True'') \<and>
            (last (shell_words (inv_cmd call)) = ''--process_sr=false'' \<longleftrightarrow> process_sr \<noteq> ''True'')"
    proof (intro ballI impI)
      fix call assume "call \<in> set new" "program (inv_cmd call) = ''lndpm''"
      then obtain c where c: "c \<in> set cs" "inv_cmd call = c" "program c = ''lndpm''"
        using attempted_subset [of st cs] by (auto simp: new record_of_def)
      have cmd: "inv_cmd call = ''lndpm --xml '' @ b @ '' '' @ t"
        using c(2) lndpm [OF c(1,3)] by (simp only:)
      have "last (shell_words (inv_cmd call)) = t"
        unfolding cmd by (rule words)
      thus "inv_cmd call = ''lndpm --xml '' @ b @ '' '' @ t \<and>
            (last (shell_words (inv_cmd call)) = ''--process_sr=true'' \<longleftrightarrow> process_sr = ''True'') \<and>
            (last (shell_words (inv_cmd call)) = ''--process_sr=false'' \<longleftrightarrow> process_sr \<noteq> ''True'')"
        using cmd t(1,2) by (simp only: simp_thms)
    qed
    have 2: "(\<exists>call \<in> set new. program (inv_cmd call) = ''lndsr'') \<longleftrightarrow>
            process_sr = ''True'' \<and>
            (\<exists>call \<in> set new. program (inv_cmd call) = ''lndcal'' \<and>
                                drop_bit 8 (inv_status call) = 0)"
      by (cases pc; cases "process_sr = ''True''")
         (auto simp: new cs_def st_def stage_commands_def program_def record_of_def)
    show ?thesis using 1 2 unfolding b_def t_def by blast
  qed
qed

lemma run_command_line:
  "runLedaps from_command_line None ''False'' =
     (from_command_line\<lparr>invoked :=
        [\<lparr>inv_dir = ''/data'', inv_cmd = ''lndpm --xml LT5base.xml --process_sr=true'', inv_status = 0\<rparr>,
         \<lparr>inv_dir = ''/data'', inv_cmd = ''lndcal --pfile lndcal.LT5base.txt '', inv_status = 0\<rparr>,
         \<lparr>inv_dir = ''/data'', inv_cmd = ''lndsr --pfile lndsr.LT5base.txt '', inv_status = 0\<rparr>,
         \<lparr>inv_dir = ''/data'', inv_cmd = ''lndsrbm.py -f lndsr.LT5base.txt'', inv_status = 0\<rparr>]\<rparr>,
      Return 0)"
  by (simp add: run_eval from_command_line_def example_world_def)

text \<open>
  C4. The string that decides is the \<^verbatim>\<open>process_sr\<close> that the body works with: the parameter
  itself when the call passes an XML file, and otherwise the option \<^verbatim>\<open>--process_sr\<close> of the
  command line, with \<^verbatim>\<open>True\<close> in its place when the option is absent. Surface reflectance counts
  as requested exactly when this string is \<^verbatim>\<open>True\<close>, letter for letter. In every run, an
  \<^verbatim>\<open>lndpm\<close> command that was run is the one with \<^verbatim>\<open>--process_sr=true\<close> as its last word in that
  case and the one with \<^verbatim>\<open>--process_sr=false\<close> in every other; and \<^verbatim>\<open>lndsr\<close> is run exactly
  when the string is \<^verbatim>\<open>True\<close> and the stage before it, \<^verbatim>\<open>lndcal\<close>, has been run and has
  succeeded.
\<close>

theorem runLedaps_process_sr:
  assumes "x = Some xmlfile \<and> process_sr = p \<or>
           x = None \<and> options_xmlfile w = Some xmlfile \<and>
             process_sr = (case options_process_sr w of None \<Rightarrow> ''True'' | Some s \<Rightarrow> s)"
      and "new = new_invocations w (fst (runLedaps w x p))"
  shows "(\<forall>call \<in> set new. program (inv_cmd call) = ''lndpm'' \<longrightarrow>
            inv_cmd call = ''lndpm --xml '' @ basename xmlfile @ '' '' @
              (if process_sr = ''True'' then ''--process_sr=true'' else ''--process_sr=false'') \<and>
            (last (shell_words (inv_cmd call)) = ''--process_sr=true'' \<longleftrightarrow> process_sr = ''True'') \<and>
            (last (shell_words (inv_cmd call)) = ''--process_sr=false'' \<longleftrightarrow> process_sr \<noteq> ''True'')) \<and>
         ((\<exists>call \<in> set new. program (inv_cmd call) = ''lndsr'') \<longleftrightarrow>
            process_sr = ''True'' \<and>
            (\<exists>call \<in> set new. program (inv_cmd call) = ''lndcal'' \<and>
                                drop_bit 8 (inv_status call) = 0))"
proof -
  have "parameters w x p = Inr (xmlfile, process_sr)"
    using assms(1) by (auto simp: parameters_def split: option.splits)
  thus ?thesis using assms(2) by (rule process_sr_tested)
qed

text \<open>
  The parameter alone does not decide. Started from the command line without the option,
  the call \<^verbatim>\<open>runLedaps(None, "False")\<close> gives \<^verbatim>\<open>lndpm\<close> the word \<^verbatim>\<open>--process_sr=true\<close> and runs
  \<^verbatim>\<open>lndsr\<close>; and with the parameter \<^verbatim>\<open>True\<close>, \<^verbatim>\<open>lndsr\<close> is not run when \<^verbatim>\<open>lndcal\<close> fails.
\<close>

theorem runLedaps_process_sr_counterexample:
  "''False'' \<noteq> ''True'' \<and>
   map inv_cmd (new_invocations from_command_line
       (fst (runLedaps from_command_line None ''False''))) =
     [''lndpm --xml LT5base.xml --process_sr=true'', ''lndcal --pfile lndcal.LT5base.txt '',
      ''lndsr --pfile lndsr.LT5base.txt '', ''lndsrbm.py -f lndsr.LT5base.txt''] \<and>
   map inv_cmd (new_invocations lndcal_fails
       (fst (runLedaps lndcal_fails (Some ''/data/LT5base.xml'') ''True''))) =
     [''lndpm --xml LT5base.xml --process_sr=true'', ''lndcal --pfile lndcal.LT5base.txt '']"
proof -
  have 1: "map inv_cmd (new_invocations from_command_line
       (fst (runLedaps from_command_line None ''False''))) =
     [''lndpm --xml LT5base.xml --process_sr=true'', ''lndcal --pfile lndcal.LT5base.txt '',
      ''lndsr --pfile lndsr.LT5base.txt '', ''lndsrbm.py -f lndsr.LT5base.txt'']"
    unfolding run_command_line
    by (simp add: new_invocations_def from_command_line_def example_world_def)
  have 2: "map inv_cmd (new_invocations lndcal_fails
       (fst (runLedaps lndcal_fails (Some ''/data/LT5base.xml'') ''True''))) =
     [''lndpm --xml LT5base.xml --process_sr=true'', ''lndcal --pfile lndcal.LT5base.txt '']"
    unfolding run_LT5_lndcal_fails by (simp add: new_invocations_def)
  show ?thesis using 1 2 by simp
qed

theorem runLedaps_process_sr_witness:
  "options_xmlfile from_command_line = Some ''/data/LT5base.xml'' \<and>
   options_process_sr from_command_line = None \<and>
   map inv_cmd (new_invocations example_world
       (fst (runLedaps example_world (Some ''/data/LT5base.xml'') ''true''))) =
     [''lndpm --xml LT5base.xml --process_sr=false'', ''lndcal --pfile lndcal.LT5base.txt ''] \<and>
   \<not> (\<exists>call \<in> set (new_invocations example_world
          (fst (runLedaps example_world (Some ''/data/LT5base.xml'') ''true''))).
        program (inv_cmd call) = ''lndsr'') \<and>
   (\<exists>call \<in> set (new_invocations example_world
          (fst (runLedaps example_world (Some ''/data/LT5base.xml'') ''True''))).
        program (inv_cmd call) = ''lndpm'' \<and>
        last (shell_words (inv_cmd call)) = ''--process_sr=true'') \<and>
   (\<exists>call \<in> set (new_invocations example_world
          (fst (runLedaps example_world (Some ''/data/LT5base.xml'') ''True''))).
        program (inv_cmd call) = ''lndsr'') \<and>
   (\<exists>call \<in> set (new_invocations from_command_line
          (fst (runLedaps from_command_line None ''False''))).
        program (inv_cmd call) = ''lndsr'')"
proof -
  have o: "options_xmlfile from_command_line = Some ''/data/LT5base.xml''"
    "options_process_sr from_command_line = None"
    by (simp_all add: from_command_line_def example_world_def)
  have p1: "Some ''/data/LT5base.xml'' = Some ''/data/LT5base.xml'' \<and> ''true'' = ''true'' \<or>
            Some ''/data/LT5base.xml'' = None \<and>
            options_xmlfile example_world = Some ''/data/LT5base.xml'' \<and>
            ''true'' = (case options_process_sr example_world of None \<Rightarrow> ''True'' | Some s \<Rightarrow> s)"
    by simp
  have p2: "Some ''/data/LT5base.xml'' = Some ''/data/LT5base.xml'' \<and> ''True'' = ''True'' \<or>
            Some ''/data/LT5base.xml'' = None \<and>
            options_xmlfile example_world = Some ''/data/LT5base.xml'' \<and>
            ''True'' = (case options_process_sr example_world of None \<Rightarrow> ''True'' | Some s \<Rightarrow> s)"
    by simp
  have p3: "None = Some ''/data/LT5base.xml'' \<and> ''True'' = ''False'' \<or>
            None = None \<and>
            options_xmlfile from_command_line = Some ''/data/LT5base.xml'' \<and>
            ''True'' = (case options_process_sr from_command_line of None \<Rightarrow> ''True'' | Some s \<Rightarrow> s)"
    by (simp add: o)
  have new1: "new_invocations example_world
       (fst (runLedaps example_world (Some ''/data/LT5base.xml'') ''true'')) =
     [\<lparr>inv_dir = ''/data'', inv_cmd = ''lndpm --xml LT5base.xml --process_sr=false'', inv_status = 0\<rparr>,
      \<lparr>inv_dir = ''/data'', inv_cmd = ''lndcal --pfile lndcal.LT5base.txt '', inv_status = 0\<rparr>]"
    unfolding run_LT5_lowercase_true by (simp add: new_invocations_def)
  have lndpm2: "\<exists>call \<in> set (new_invocations example_world
          (fst (runLedaps example_world (Some ''/data/LT5base.xml'') ''True''))).
        program (inv_cmd call) = ''lndpm''"
    unfolding run_LT5_sr by (simp add: new_invocations_def program_def)
  have lndcal2: "\<exists>call \<in> set (new_invocations example_world
          (fst (runLedaps example_world (Some ''/data/LT5base.xml'') ''True''))).
        program (inv_cmd call) = ''lndcal'' \<and> drop_bit 8 (inv_status call) = 0"
    unfolding run_LT5_sr by (simp add: new_invocations_def program_def)
  have lndcal3: "\<exists>call \<in> set (new_invocations from_command_line
          (fst (runLedaps from_command_line None ''False''))).
        program (inv_cmd call) = ''lndcal'' \<and> drop_bit 8 (inv_status call) = 0"
    unfolding run_command_line
    by (simp add: new_invocations_def program_def from_command_line_def example_world_def)
  have a: "\<not> (\<exists>call \<in> set (new_invocations example_world
          (fst (runLedaps example_world (Some ''/data/LT5base.xml'') ''true''))).
        program (inv_cmd call) = ''lndsr'')"
    using runLedaps_process_sr [OF p1 refl] by simp
  have b: "\<exists>call \<in> set (new_invocations example_world
          (fst (runLedaps example_world (Some ''/data/LT5base.xml'') ''True''))).
        program (inv_cmd call) = ''lndpm'' \<and>
        last (shell_words (inv_cmd call)) = ''--process_sr=true''"
    using runLedaps_process_sr [OF p2 refl] lndpm2 by blast
  have c: "\<exists>call \<in> set (new_invocations example_world
          (fst (runLedaps example_world (Some ''/data/LT5base.xml'') ''True''))).
        program (inv_cmd call) = ''lndsr''"
    using runLedaps_process_sr [OF p2 refl] lndcal2 by blast
  have d: "\<exists>call \<in> set (new_invocations from_command_line
          (fst (runLedaps from_command_line None ''False''))).
        program (inv_cmd call) = ''lndsr''"
    using runLedaps_process_sr [OF p3 refl] lndcal3 by blast
  show ?thesis
    using o a b c d by (simp add: new1)
qed



text \<open>
  C8. Take any \<^verbatim>\<open>lndcal\<close> or \<^verbatim>\<open>lndsr\<close> command that a run contains. For a collection scene
  it is the program, \<^verbatim>\<open>--pfile\<close>, the parameter file, a blank and \<^verbatim>\<open>--process_collection\<close>:
  its words are those of the command without the flag, and then the flag. For a
  pre-collection scene the command ends with the blank that the format string puts after
  the parameter file; nothing follows it, so its words are those of the command without
  the flag, with no further word, empty or not.
\<close>

theorem runLedaps_collection_flag:
  assumes "parameters w x p = Inr (xmlfile, process_sr)"
      and "new = new_invocations w (fst (runLedaps w x p))"
      and "xml = re_sub_xml (basename xmlfile)"
      and "call \<in> set new"
      and "stage = ''lndcal'' \<or> stage = ''lndsr''"
      and "program (inv_cmd call) = stage"
  shows "(processing_collection (basename xmlfile) = Some True \<longrightarrow>
            inv_cmd call = stage @ '' --pfile '' @ stage @ ''.'' @ xml @ ''.txt'' @ '' '' @
                           ''--process_collection'' \<and>
            shell_words (inv_cmd call) =
              shell_words (stage @ '' --pfile '' @ stage @ ''.'' @ xml @ ''.txt'') @
              [''--process_collection'']) \<and>
         (processing_collection (basename xmlfile) = Some False \<longrightarrow>
            inv_cmd call = stage @ '' --pfile '' @ stage @ ''.'' @ xml @ ''.txt'' @ '' '' \<and>
            shell_words (inv_cmd call) =
              shell_words (stage @ '' --pfile '' @ stage @ ''.'' @ xml @ ''.txt''))"
proof -
  define d where "d = dirname (abspath w (cwd w) xmlfile)"
  define b where "b = basename xmlfile"
  have reach: "\<not> (\<not> isfile w xmlfile \<or> \<not> access_W_OK w d \<or> processing_collection b = None)"
  proof
    assume "\<not> isfile w xmlfile \<or> \<not> access_W_OK w d \<or> processing_collection b = None"
    hence "runLedaps w x p = (w, Return ERROR)"
      using assms(1) by (intro runLedaps_rejected [of w x p xmlfile process_sr]) (auto simp: d_def b_def)
    hence "new = []"
      using assms(2) by (simp add: new_invocations_def)
    thus False using assms(4) by simp
  qed
  then obtain pc where pc: "processing_collection b = Some pc"
    by auto
  define cs where "cs = stage_commands b xml process_sr pc"
  define st where "st = (\<lambda>c. fst (getstatusoutput w d c))"
  have "runLedaps w x p =
          (w\<lparr>invoked := invoked w @ map (record_of w d) (attempted st cs)\<rparr>,
           Return (if \<exists>c \<in> set cs. drop_bit 8 (st c) \<noteq> 0 then ERROR else SUCCESS))"
    using assms(1,3) reach pc d_def cs_def st_def b_def
    by (intro runLedaps_staged [of w x p xmlfile process_sr d pc cs st]) auto
  hence "new = map (record_of w d) (attempted st cs)"
    using assms(2) by (simp add: new_invocations_def)
  hence mem: "inv_cmd call \<in> set cs"
    using assms(4) attempted_subset [of st cs] by (auto simp: record_of_def)
  define A where "A = stage @ '' --pfile '' @ stage @ ''.'' @ xml @ ''.txt''"
  define opt where "opt = (if pc then ''--process_collection'' else '''')"
  have cmd: "inv_cmd call = A @ '' '' @ opt"
    using mem assms(5,6)
    by (auto simp: cs_def stage_commands_def program_def A_def opt_def split: if_splits)
  have coll: "shell_words (inv_cmd call) = shell_words A @ [''--process_collection'']" if "pc"
  proof -
    have "shell_words (A @ '' '' @ ''--process_collection'') = shell_words A @ [''--process_collection'']"
      by (rule shell_words_last_word) simp_all
    thus ?thesis using that cmd by (simp add: opt_def)
  qed
  have pre: "shell_words (inv_cmd call) = shell_words A" if "\<not> pc"
  proof -
    have "inv_cmd call = A @ '' ''"
      using that cmd by (simp add: opt_def)
    thus ?thesis by (simp only: shell_words_trailing_blank)
  qed
  show ?thesis
    using pc cmd coll pre unfolding b_def [symmetric] by (auto simp: A_def opt_def)
qed

theorem runLedaps_collection_flag_witness:
  "parameters example_world (Some ''/data/LE07_L1TP.xml'') ''True'' =
     Inr (''/data/LE07_L1TP.xml'', ''True'') \<and>
   processing_collection (basename ''/data/LE07_L1TP.xml'') = Some True \<and>
   \<lparr>inv_dir = ''/data'', inv_cmd = ''lndcal --pfile lndcal.LE07_L1TP.txt --process_collection'',
     inv_status = 0\<rparr>
     \<in> set (new_invocations example_world
              (fst (runLedaps example_world (Some ''/data/LE07_L1TP.xml'') ''True''))) \<and>
   shell_words ''lndcal --pfile lndcal.LE07_L1TP.txt --process_collection'' =
     [''lndcal'', ''--pfile'', ''lndcal.LE07_L1TP.txt'', ''--process_collection''] \<and>
   processing_collection (basename ''/data/LT5base.xml'') = Some False \<and>
   \<lparr>inv_dir = ''/data'', inv_cmd = ''lndsr --pfile lndsr.LT5base.txt '', inv_status = 0\<rparr>
     \<in> set (new_invocations example_world
              (fst (runLedaps example_world (Some ''/data/LT5base.xml'') ''True''))) \<and>
   shell_words ''lndsr --pfile lndsr.LT5base.txt '' = [''lndsr'', ''--pfile'', ''lndsr.LT5base.txt'']"
proof -
  have p: "parameters example_world (Some ''/data/LE07_L1TP.xml'') ''True'' =
             Inr (''/data/LE07_L1TP.xml'', ''True'')"
    "parameters example_world (Some ''/data/LT5base.xml'') ''True'' = Inr (''/data/LT5base.xml'', ''True'')"
    by (simp_all add: parameters_def)
  have pc: "processing_collection (basename ''/data/LE07_L1TP.xml'') = Some True"
    "processing_collection (basename ''/data/LT5base.xml'') = Some False"
    by (simp_all add: basename_def processing_collection_def prefixes_old_def
          prefixes_collection_def)
  have xml: "''LE07_L1TP'' = re_sub_xml (basename ''/data/LE07_L1TP.xml'')"
    "''LT5base'' = re_sub_xml (basename ''/data/LT5base.xml'')"
    by (simp_all add: basename_def re_sub_xml_def endswith_def)
  have mem1: "\<lparr>inv_dir = ''/data'',
      inv_cmd = ''lndcal --pfile lndcal.LE07_L1TP.txt --process_collection'', inv_status = 0\<rparr>
     \<in> set (new_invocations example_world
              (fst (runLedaps example_world (Some ''/data/LE07_L1TP.xml'') ''True'')))"
    unfolding run_LE07_sr by (simp add: new_invocations_def)
  have mem2: "\<lparr>inv_dir = ''/data'', inv_cmd = ''lndsr --pfile lndsr.LT5base.txt '', inv_status = 0\<rparr>
     \<in> set (new_invocations example_world
              (fst (runLedaps example_world (Some ''/data/LT5base.xml'') ''True'')))"
    unfolding run_LT5_sr by (simp add: new_invocations_def)
  have stage: "''lndcal'' = ''lndcal'' \<or> ''lndcal'' = ''lndsr''" "''lndsr'' = ''lndcal'' \<or> ''lndsr'' = ''lndsr''"
    by simp_all
  have prog1: "program (inv_cmd \<lparr>inv_dir = ''/data'',
      inv_cmd = ''lndcal --pfile lndcal.LE07_L1TP.txt --process_collection'', inv_status = 0\<rparr>) = ''lndcal''"
    by (simp add: program_def)
  have prog2: "program (inv_cmd \<lparr>inv_dir = ''/data'',
      inv_cmd = ''lndsr --pfile lndsr.LT5base.txt '', inv_status = 0\<rparr>) = ''lndsr''"
    by (simp add: program_def)
  have base: "shell_words ''lndcal --pfile lndcal.LE07_L1TP.txt'' = [''lndcal'', ''--pfile'', ''lndcal.LE07_L1TP.txt'']"
    "shell_words ''lndsr --pfile lndsr.LT5base.txt'' = [''lndsr'', ''--pfile'', ''lndsr.LT5base.txt'']"
    by (simp_all add: shell_words_def)
  have 1: "shell_words ''lndcal --pfile lndcal.LE07_L1TP.txt --process_collection'' =
     [''lndcal'', ''--pfile'', ''lndcal.LE07_L1TP.txt'', ''--process_collection'']"
    using runLedaps_collection_flag [OF p(1) refl xml(1) mem1 stage(1) prog1] pc(1) base(1)
    by simp
  have 2: "shell_words ''lndsr --pfile lndsr.LT5base.txt '' = [''lndsr'', ''--pfile'', ''lndsr.LT5base.txt'']"
    using runLedaps_collection_flag [OF p(2) refl xml(2) mem2 stage(2) prog2] pc(2) base(2)
    by simp
  show ?thesis
    using p(1) pc mem1 mem2 1 2 by blast
qed

end
